theory Spec2Isabelle
  imports Main "HOL-Library.Sublist" "HOL-Library.AList"
begin

section \<open>JavaScript values\<close>

text \<open>
  The values the request layer of \<^verbatim>\<open>src/js/utils.js\<close> handles. Numbers are
  integers here (no claim depends on fractions), strings are lists of 8-bit characters
  (header values and cookies are byte strings), a plain object is the list of its own
  enumerable properties in insertion order. A \<open>File\<close> is named, a \<open>FileList\<close> is the
  list of its files' names, a \<open>FormData\<close> is the list of its entries.
\<close>

datatype jsval =
    JUndefined
  | JNull
  | JBool bool
  | JNum int
  | JBigInt int
  | JStr string
  | JArr "jsval list"
  | JObj "(string \<times> jsval) list"
  | JFile string
  | JBlob string
  | JFileList "string list"
  | JFormData "(string \<times> jsval) list"

text \<open>
  An instance of \<open>Error\<close>: its name, its message and the own properties assigned to it
  after construction (\<open>error.status = ...\<close>). A thrown value is never \<open>null\<close>.
\<close>

datatype js_error = JsError (err_name: string) (err_message: string) (err_props: "(string \<times> jsval) list")

definition TypeError :: "string \<Rightarrow> js_error" where
  "TypeError msg = JsError ''TypeError'' msg []"

definition ReferenceError :: "string \<Rightarrow> js_error" where
  "ReferenceError ident = JsError ''ReferenceError'' (ident @ '' is not defined'') []"

definition SyntaxError :: "string \<Rightarrow> js_error" where
  "SyntaxError msg = JsError ''SyntaxError'' msg []"

definition AbortError :: js_error where
  "AbortError = JsError ''AbortError'' ''The operation was aborted.'' []"

text \<open>\<open>ToBoolean\<close>: what \<open>if (v)\<close>, \<open>v && ...\<close> and \<open>v || ...\<close> test.\<close>

fun truthy :: "jsval \<Rightarrow> bool" where
  "truthy JUndefined = False"
| "truthy JNull = False"
| "truthy (JBool b) = b"
| "truthy (JNum n) = (n \<noteq> 0)"
| "truthy (JBigInt n) = (n \<noteq> 0)"
| "truthy (JStr s) = (s \<noteq> [])"
| "truthy _ = True"

text \<open>\<open>typeof v === "object"\<close> (true of \<open>null\<close> as well).\<close>

fun typeof_object :: "jsval \<Rightarrow> bool" where
  "typeof_object JUndefined = False"
| "typeof_object (JBool b) = False"
| "typeof_object (JNum n) = False"
| "typeof_object (JBigInt n) = False"
| "typeof_object (JStr s) = False"
| "typeof_object _ = True"

fun instanceof_Blob :: "jsval \<Rightarrow> bool" where
  "instanceof_Blob (JBlob b) = True"
| "instanceof_Blob (JFile n) = True"
| "instanceof_Blob _ = False"

fun instanceof_File :: "jsval \<Rightarrow> bool" where
  "instanceof_File (JFile n) = True"
| "instanceof_File _ = False"

fun instanceof_FileList :: "jsval \<Rightarrow> bool" where
  "instanceof_FileList (JFileList fs) = True"
| "instanceof_FileList _ = False"

fun instanceof_FormData :: "jsval \<Rightarrow> bool" where
  "instanceof_FormData (JFormData es) = True"
| "instanceof_FormData _ = False"

section \<open>String operations of the platform\<close>

text \<open>
  \<open>String.prototype.toLowerCase\<close> on a byte string: A-Z and the upper-case letters of
  Latin-1 (0xC0-0xDE without the multiplication sign 0xD7) move up by 32.
\<close>

definition toLowerChar :: "char \<Rightarrow> char" where
  "toLowerChar c =
     (let n = (of_char c :: nat)
      in if (65 \<le> n \<and> n \<le> 90) \<or> (192 \<le> n \<and> n \<le> 222 \<and> n \<noteq> 215)
         then char_of (n + 32) else c)"

definition toLowerCase :: "string \<Rightarrow> string" where
  "toLowerCase s = map toLowerChar s"

definition startsWith :: "string \<Rightarrow> string \<Rightarrow> bool" where
  "startsWith s pat = (take (length pat) s = pat)"

text \<open>\<open>s.includes(pat)\<close>: \<open>pat\<close> starts at some position of \<open>s\<close>.\<close>

fun js_includes :: "string \<Rightarrow> string \<Rightarrow> bool" where
  "js_includes [] pat = (pat = [])"
| "js_includes (c # cs) pat = (startsWith (c # cs) pat \<or> js_includes cs pat)"

section \<open>Responses\<close>

text \<open>
  A \<open>Response\<close> as the transport hands it over: \<open>content_type\<close> is what
  \<open>response.headers.get("Content-Type")\<close> returns (\<open>None\<close> for \<open>null\<close>: the header is
  absent), \<open>text_body\<close> what \<open>response.text()\<close> settles with, \<open>json_body\<close> what
  \<open>response.json()\<close> settles with (\<open>None\<close> when the body is not JSON and the promise
  rejects with a \<open>SyntaxError\<close>). \<open>body_is_null\<close> marks a response without a body
  (\<open>response.body === null\<close>, as for status 204): its text is empty and it is never
  used up.
\<close>

record response =
  status :: int
  statusText :: string
  ok :: bool
  resp_url :: string
  content_type :: "string option"
  text_body :: string
  json_body :: "jsval option"
  bodyUsed :: bool
  body_is_null :: bool

subsection \<open>\<open>getResponseType\<close> (utils.js, lines 994-1011)\<close>

text \<open>
  The header is read as \<open>(response.headers.get("Content-Type") || "").toLowerCase()\<close>:
  \<open>null\<close> and the empty string both give the empty string.
\<close>

datatype response_type = Json | Text | Multipart | Blob | Unknown

definition getResponseType :: "response \<Rightarrow> response_type" where
  "getResponseType response =
     (let contentType = toLowerCase (case content_type response of None \<Rightarrow> [] | Some h \<Rightarrow> if h = [] then [] else h)
      in if js_includes contentType ''application/json'' then Json
         else if startsWith contentType ''text/'' then Text
         else if startsWith contentType ''multipart/'' then Multipart
         else if js_includes contentType ''application/octet-stream''
               \<or> startsWith contentType ''image/''
               \<or> startsWith contentType ''audio/''
               \<or> startsWith contentType ''video/''
               \<or> js_includes contentType ''application/pdf'' then Blob
         else Unknown)"

text \<open>
  The classifier in the specification's words: the header is compared case-insensitively,
  the first rule that matches decides, "contains" is being a contiguous sublist and
  "prefix" is being a prefix (both from the list library).
\<close>

definition classify_spec :: "string option \<Rightarrow> response_type" where
  "classify_spec header =
     (case header of
        None \<Rightarrow> Unknown
      | Some h \<Rightarrow>
          (let ct = toLowerCase h
           in if sublist ''application/json'' ct then Json
              else if prefix ''text/'' ct then Text
              else if prefix ''multipart/'' ct then Multipart
              else if prefix ''image/'' ct \<or> prefix ''audio/'' ct \<or> prefix ''video/'' ct
                    \<or> sublist ''application/octet-stream'' ct \<or> sublist ''application/pdf'' ct
                   then Blob
              else Unknown))"


subsection \<open>\<open>objectContainsFile\<close> (utils.js, lines 944-957)\<close>

text \<open>
  The body of \<open>objectContainsFile\<close> calls \<open>containsFile\<close>. The module
  \<^verbatim>\<open>src/js/utils.js\<close> declares no function, variable or import of that name, so
  the identifier has no binding and evaluating it throws a \<open>ReferenceError\<close>.
\<close>

definition module_containsFile :: "(jsval \<Rightarrow> js_error + bool) option" where
  "module_containsFile = None"

definition call_containsFile :: "jsval \<Rightarrow> js_error + bool" where
  "call_containsFile v =
     (case module_containsFile of
        None \<Rightarrow> Inl (ReferenceError ''containsFile'')
      | Some f \<Rightarrow> f v)"

text \<open>\<open>Object.values\<close> on the objects that reach it.\<close>

fun Object_values :: "jsval \<Rightarrow> jsval list" where
  "Object_values (JArr xs) = xs"
| "Object_values (JObj ps) = map snd ps"
| "Object_values (JFileList fs) = map JFile fs"
| "Object_values _ = []"

fun FormData_values :: "jsval \<Rightarrow> jsval list" where
  "FormData_values (JFormData es) = map snd es"
| "FormData_values _ = []"

fun FileList_length :: "jsval \<Rightarrow> nat" where
  "FileList_length (JFileList fs) = length fs"
| "FileList_length _ = 0"

text \<open>
  \<open>xs.some(f)\<close>, and the loop \<open>for (const value of xs) { if (f(value)) return true; }
  return false;\<close>: the first call that throws ends the iteration.
\<close>

fun js_some :: "(jsval \<Rightarrow> js_error + bool) \<Rightarrow> jsval list \<Rightarrow> js_error + bool" where
  "js_some f [] = Inr False"
| "js_some f (v # vs) =
     (case f v of
        Inl e \<Rightarrow> Inl e
      | Inr b \<Rightarrow> if b then Inr True else js_some f vs)"

definition objectContainsFile :: "jsval \<Rightarrow> js_error + bool" where
  "objectContainsFile obj =
     (if instanceof_File obj \<or> instanceof_Blob obj then Inr True
      else if instanceof_FileList obj \<and> FileList_length obj > 0 then Inr True
      else if instanceof_FormData obj then js_some call_containsFile (FormData_values obj)
      else if typeof_object obj \<and> obj \<noteq> JNull then
        (case module_containsFile of
           None \<Rightarrow> Inl (ReferenceError ''containsFile'')
         | Some f \<Rightarrow> js_some f (Object_values obj))
      else Inr False)"

text \<open>
  The other copy of the library (\<^verbatim>\<open>src/unnamed/part_000\<close>, lines 174-186) has
  the same test as a function \<open>containsFile\<close> local to \<open>formParser\<close>, where the
  recursive calls do resolve.
\<close>

fun formParser_containsFile :: "jsval \<Rightarrow> bool" where
  "formParser_containsFile (JFile n) = True"
| "formParser_containsFile (JBlob b) = True"
| "formParser_containsFile (JFileList fs) = (length fs > 0)"
| "formParser_containsFile (JFormData es) = list_ex (\<lambda>e. formParser_containsFile (snd e)) es"
| "formParser_containsFile (JObj ps) = list_ex (\<lambda>p. formParser_containsFile (snd p)) ps"
| "formParser_containsFile (JArr xs) = list_ex formParser_containsFile xs"
| "formParser_containsFile _ = False"

section \<open>The request executor\<close>

subsection \<open>Body encoding\<close>

text \<open>
  \<open>JSON.stringify\<close> throws a \<open>TypeError\<close> on a value it cannot serialize: a
  \<open>BigInt\<close> anywhere among the array elements and property values (an object that
  contains itself is refused with a \<open>TypeError\<close> as well). The text it returns otherwise is kept
  symbolic: \<open>JsonText v\<close> is the JSON text of \<open>v\<close>.
\<close>

fun serializable :: "jsval \<Rightarrow> bool" where
  "serializable (JBigInt n) = False"
| "serializable (JArr xs) = list_all serializable xs"
| "serializable (JObj ps) = list_all (\<lambda>p. serializable (snd p)) ps"
| "serializable _ = True"

datatype body = Raw jsval | JsonText jsval

definition JSON_stringify :: "jsval \<Rightarrow> js_error + body" where
  "JSON_stringify v =
     (if serializable v then Inr (JsonText v)
      else Inl (TypeError ''Do not know how to serialize a BigInt''))"

subsection \<open>Requests, the transport and the abort controller\<close>

text \<open>
  Object spread \<open>{...base, ...extra}\<close>: each property of \<open>extra\<close> replaces the
  property of that name or is added at the end.
\<close>

definition spread :: "(string \<times> 'v) list \<Rightarrow> (string \<times> 'v) list \<Rightarrow> (string \<times> 'v) list" where
  "spread base extra = foldl (\<lambda>acc p. AList.update (fst p) (snd p) acc) base extra"

text \<open>
  \<open>options\<close> is the \<open>RequestInit\<close> the caller passes, with the members the code
  reads; \<open>config\<close> is the third parameter, each member optional.
\<close>

record options =
  opt_method :: "string option"
  opt_headers :: "(string \<times> jsval) list option"
  opt_body :: jsval

record config =
  cfg_autoJSON :: "bool option"
  cfg_retries :: "int option"
  cfg_timeout :: "int option"

text \<open>
  What one call of \<open>fetch(url, opts)\<close> receives. \<open>opts.signal\<close> is the one
  \<open>controller.signal\<close>; \<open>signal_aborted\<close> records its \<open>aborted\<close> flag at the
  moment of the call.
\<close>

record request =
  req_url :: string
  req_method :: "string option"
  req_headers :: "(string \<times> jsval) list"
  req_body :: body
  signal_aborted :: bool

text \<open>
  The transport is the environment: for the k-th call of \<open>fetch\<close> it answers with a
  response, rejects with a network fault, or stays silent (it settles after the timer, or
  never). \<open>fetch\<close> honours the signal as the Fetch standard says: a call with an
  aborted signal rejects with an \<open>AbortError\<close> at once, and a pending call rejects
  with it when the timer's callback runs \<open>controller.abort()\<close>.
\<close>

datatype transport = Responds response | Fails js_error | Silent

datatype fetch_result = FetchResolved response | FetchRejected js_error | FetchPending

record fetch_state =
  aborted :: bool
  timer_pending :: bool
  calls :: "request list"

definition fetch_call :: "transport \<Rightarrow> fetch_state \<Rightarrow> fetch_result \<times> fetch_state" where
  "fetch_call t st =
     (if aborted st then (FetchRejected AbortError, st)
      else case t of
             Responds r \<Rightarrow> (FetchResolved r, st)
           | Fails e \<Rightarrow> (FetchRejected e, st)
           | Silent \<Rightarrow>
               if timer_pending st
               then (FetchRejected AbortError, st\<lparr>aborted := True, timer_pending := False\<rparr>)
               else (FetchPending, st))"

subsection \<open>\<open>safeFetch\<close> (utils.js, lines 811-858)\<close>

text \<open>Decimal text of a number, as a template literal renders it.\<close>

function show_nat :: "nat \<Rightarrow> string" where
  "show_nat n =
     (if n < 10 then [''0123456789'' ! n]
      else show_nat (n div 10) @ [''0123456789'' ! (n mod 10)])"
  by pat_completeness auto
termination
  by (relation "measure id") auto

definition show_int :: "int \<Rightarrow> string" where
  "show_int i = (if i < 0 then CHR ''-'' # show_nat (nat (- i)) else show_nat (nat i))"

text \<open>
  \<open>new Error(`HTTP ${response.status}: ${response.statusText}`)\<close> with \<open>status\<close> and
  \<open>data\<close> assigned.
\<close>

definition http_error :: "response \<Rightarrow> jsval \<Rightarrow> js_error" where
  "http_error response data =
     JsError ''Error'' (''HTTP '' @ show_int (status response) @ '': '' @ statusText response)
       [(''status'', JNum (status response)), (''data'', data)]"

text \<open>
  \<open>contentType?.includes("application/json") ? await response.json() : await
  response.text()\<close>, on the header as sent (no case folding here).
\<close>

definition read_body :: "response \<Rightarrow> js_error + jsval" where
  "read_body response =
     (if (case content_type response of None \<Rightarrow> False | Some ct \<Rightarrow> js_includes ct ''application/json'')
      then (case json_body response of
              None \<Rightarrow> Inl (SyntaxError ''Unexpected token in JSON'')
            | Some j \<Rightarrow> Inr j)
      else Inr (JStr (text_body response)))"

datatype try_result = Returned jsval | Threw js_error | Hung

text \<open>
  The \<open>try\<close> block of one iteration. The call is logged with the signal's state, the
  transport's answer for this call number is taken, \<open>clearTimeout(id)\<close> runs once a
  response has arrived.
\<close>

definition try_block :: "(nat \<Rightarrow> transport) \<Rightarrow> request \<Rightarrow> fetch_state \<Rightarrow> try_result \<times> fetch_state" where
  "try_block env opts st =
     (let st1 = st\<lparr>calls := calls st @ [opts\<lparr>signal_aborted := aborted st\<rparr>]\<rparr>
      in case fetch_call (env (length (calls st))) st1 of
           (FetchRejected e, st2) \<Rightarrow> (Threw e, st2)
         | (FetchPending, st2) \<Rightarrow> (Hung, st2)
         | (FetchResolved response, st2) \<Rightarrow>
             (let st3 = st2\<lparr>timer_pending := False\<rparr>
              in case read_body response of
                   Inl e \<Rightarrow> (Threw e, st3)
                 | Inr data \<Rightarrow>
                     if \<not> ok response then (Threw (http_error response data), st3)
                     else (Returned data, st3)))"

text \<open>
  What the promise of \<open>safeFetch\<close> does: it resolves with the array \<open>[err, data]\<close>,
  resolves with \<open>undefined\<close> (control leaves the loop), rejects, or never settles.
\<close>

datatype outcome =
    Resolved "js_error option" jsval
  | ResolvedUndefined
  | Rejected js_error
  | Pending

function attempt_loop ::
    "(nat \<Rightarrow> transport) \<Rightarrow> request \<Rightarrow> int \<Rightarrow> int \<Rightarrow> fetch_state \<Rightarrow> outcome \<times> fetch_state" where
  "attempt_loop env opts retries attempts st =
     (if attempts \<le> retries then
        (case try_block env opts st of
           (Returned data, st') \<Rightarrow> (Resolved None data, st')
         | (Hung, st') \<Rightarrow> (Pending, st')
         | (Threw err, st') \<Rightarrow>
             if attempts < retries then attempt_loop env opts retries (attempts + 1) st'
             else (Resolved (Some err) JNull, st'))
      else (ResolvedUndefined, st))"
  by pat_completeness auto
termination
  by (relation "measure (\<lambda>(env, opts, retries, attempts, st). nat (retries - attempts))") auto

text \<open>
  The parameter \<open>{ autoJSON = true, retries = 0, timeout = 0 } = {}\<close>: a member that is
  missing takes its default.
\<close>

definition config_autoJSON :: "config \<Rightarrow> bool" where
  "config_autoJSON cfg = (case cfg_autoJSON cfg of None \<Rightarrow> True | Some b \<Rightarrow> b)"

definition config_retries :: "config \<Rightarrow> int" where
  "config_retries cfg = (case cfg_retries cfg of None \<Rightarrow> 0 | Some n \<Rightarrow> n)"

definition config_timeout :: "config \<Rightarrow> int" where
  "config_timeout cfg = (case cfg_timeout cfg of None \<Rightarrow> 0 | Some n \<Rightarrow> n)"

definition safeFetch :: "(nat \<Rightarrow> transport) \<Rightarrow> string \<Rightarrow> options \<Rightarrow> config \<Rightarrow> outcome \<times> fetch_state" where
  "safeFetch env url opts0 cfg =
     (let autoJSON = config_autoJSON cfg;
          retries = config_retries cfg;
          timeout = config_timeout cfg;
          st0 = \<lparr>aborted = False, timer_pending = (timeout \<noteq> 0), calls = []\<rparr>;
          headers = spread [(''Accept'', JStr ''application/json'')]
                      (case opt_headers opts0 of None \<Rightarrow> [] | Some h \<Rightarrow> h);
          opts = \<lparr>req_url = url, req_method = opt_method opts0, req_headers = headers,
                  req_body = Raw (opt_body opts0), signal_aborted = False\<rparr>
      in if autoJSON \<and> truthy (opt_body opts0) \<and> typeof_object (opt_body opts0)
            \<and> \<not> instanceof_FormData (opt_body opts0)
         then (case JSON_stringify (opt_body opts0) of
                 Inl e \<Rightarrow> (Rejected e, st0)
               | Inr text \<Rightarrow>
                   attempt_loop env
                     (opts\<lparr>req_headers := AList.update ''Content-Type'' (JStr ''application/json'') headers,
                           req_body := text\<rparr>)
                     retries 0 st0)
         else attempt_loop env opts retries 0 st0)"



subsection \<open>\<open>normalizeError\<close> (utils.js, lines 1090-1121)\<close>

datatype thrown = ThrownResponse response | ThrownError js_error | ThrownValue jsval

text \<open>
  \<open>error.stack\<close>: the text the engine attached to the \<open>Error\<close> when it was built (kept
  symbolic), unless a property of that name was assigned afterwards.
\<close>

datatype stack_value = EngineStack js_error | AssignedStack jsval

datatype normalized =
    NHttp int string string jsval
  | NJs string stack_value
  | NUnknown thrown

text \<open>
  For a \<open>Response\<close> the body is read from a clone, \<open>clone.json().catch(() => clone.text())\<close>
  inside a \<open>try\<close> whose \<open>catch\<close> sets \<open>null\<close>. \<open>clone()\<close> throws when the body was
  read already. When the body is not JSON, \<open>clone.json()\<close> has consumed the clone's body,
  so \<open>clone.text()\<close> rejects and the result is \<open>null\<close>. A response without a body
  has nothing to use up: \<open>clone()\<close> does not throw, \<open>clone.json()\<close> rejects on the empty
  input and \<open>clone.text()\<close> gives the empty string.
\<close>

definition normalizeError :: "thrown \<Rightarrow> normalized" where
  "normalizeError error =
     (case error of
        ThrownResponse r \<Rightarrow>
          NHttp (status r) (statusText r) (resp_url r)
            (if body_is_null r then JStr []
             else if bodyUsed r then JNull
             else case json_body r of None \<Rightarrow> JNull | Some j \<Rightarrow> j)
      | ThrownError e \<Rightarrow>
          NJs (if err_message e = [] then ''Unknown error'' else err_message e)
              (case map_of (err_props e) ''stack'' of
                 None \<Rightarrow> EngineStack e
               | Some s \<Rightarrow> AssignedStack s)
      | ThrownValue v \<Rightarrow> NUnknown error)"

text \<open>The property names of an object, to compare shapes.\<close>

definition error_keys :: "js_error \<Rightarrow> string list" where
  "error_keys e = ''message'' # map fst (err_props e)"

fun normalized_keys :: "normalized \<Rightarrow> string list" where
  "normalized_keys (NHttp s t u b) = [''type'', ''status'', ''statusText'', ''url'', ''body'']"
| "normalized_keys (NJs m s) = [''type'', ''message'', ''stack'']"
| "normalized_keys (NUnknown v) = [''type'', ''value'']"

section \<open>\<open>createHeaders\<close> (utils.js, lines 1146-1162)\<close>

text \<open>
  A \<open>Headers\<close> object: names are case-insensitive (kept lower-cased), \<open>set\<close> replaces
  the value of a name. \<open>set\<close> strips leading and trailing HTTP whitespace from the value
  and throws a \<open>TypeError\<close> for a name that is not an HTTP token or a value with a NUL,
  LF or CR byte.
\<close>

type_synonym headers = "(string \<times> string) list"

definition is_tchar :: "char \<Rightarrow> bool" where
  "is_tchar c =
     (let n = (of_char c :: nat)
      in (48 \<le> n \<and> n \<le> 57) \<or> (65 \<le> n \<and> n \<le> 90) \<or> (97 \<le> n \<and> n \<le> 122)
         \<or> n \<in> set [33, 35, 36, 37, 38, 39, 42, 43, 45, 46, 94, 95, 96, 124, 126])"

definition valid_header_name :: "string \<Rightarrow> bool" where
  "valid_header_name name = (name \<noteq> [] \<and> list_all is_tchar name)"

definition is_http_whitespace :: "char \<Rightarrow> bool" where
  "is_http_whitespace c = ((of_char c :: nat) \<in> set [9, 10, 13, 32])"

definition normalize_value :: "string \<Rightarrow> string" where
  "normalize_value v = rev (dropWhile is_http_whitespace (rev (dropWhile is_http_whitespace v)))"

definition valid_header_value :: "string \<Rightarrow> bool" where
  "valid_header_value v = list_all (\<lambda>c. (of_char c :: nat) \<notin> set [0, 10, 13]) v"

definition Headers_set :: "headers \<Rightarrow> string \<Rightarrow> string \<Rightarrow> js_error + headers" where
  "Headers_set h name v =
     (if valid_header_name name \<and> valid_header_value (normalize_value v)
      then Inr (AList.update (toLowerCase name) (normalize_value v) h)
      else Inl (TypeError ''Invalid header''))"

definition Headers_get :: "headers \<Rightarrow> string \<Rightarrow> string option" where
  "Headers_get h name = map_of h (toLowerCase name)"

text \<open>A value that is a string, \<open>null\<close> or \<open>undefined\<close>, tested by \<open>if (v)\<close>.\<close>

definition truthy_str :: "string option \<Rightarrow> bool" where
  "truthy_str s = (case s of None \<Rightarrow> False | Some t \<Rightarrow> t \<noteq> [])"

text \<open>\<open>a || b\<close> for such a value \<open>a\<close> and a string \<open>b\<close>.\<close>

definition or_else :: "string option \<Rightarrow> string \<Rightarrow> string" where
  "or_else a b = (case a of None \<Rightarrow> b | Some s \<Rightarrow> if s = [] then b else s)"

text \<open>
  The configuration of \<open>createHeaders\<close>, each member optional; \<open>extra\<close> is the list of
  the entries of an object, so no name occurs twice in it.
\<close>

record header_config =
  isJson :: "bool option"
  token :: "string option"
  extra :: "(string \<times> string) list option"

text \<open>\<open>for (const [key, value] of Object.entries(extra)) headers.set(key, value)\<close>\<close>

fun set_entries :: "(string \<times> string) list \<Rightarrow> headers \<Rightarrow> js_error + headers" where
  "set_entries [] h = Inr h"
| "set_entries ((key, v) # es) h =
     (case Headers_set h key v of
        Inl e \<Rightarrow> Inl e
      | Inr h' \<Rightarrow> set_entries es h')"

text \<open>
  The parameter \<open>{ isJson = true, token = null, extra = {} } = {}\<close>: a member that is
  missing takes its default.
\<close>

definition config_isJson :: "header_config \<Rightarrow> bool" where
  "config_isJson cfg = (case isJson cfg of None \<Rightarrow> True | Some b \<Rightarrow> b)"

definition config_extra :: "header_config \<Rightarrow> (string \<times> string) list" where
  "config_extra cfg = (case extra cfg of None \<Rightarrow> [] | Some e \<Rightarrow> e)"

definition createHeaders :: "header_config \<Rightarrow> js_error + headers" where
  "createHeaders cfg =
     (let isJson = config_isJson cfg;
          extra = config_extra cfg;
          r1 = (if isJson \<and> \<not> truthy_str (map_of extra ''Content-Type'')
                then Headers_set [] ''Content-Type'' ''application/json''
                else Inr []);
          r2 = (case r1 of
                  Inl e \<Rightarrow> Inl e
                | Inr h \<Rightarrow>
                    (case token cfg of
                       None \<Rightarrow> Inr h
                     | Some t \<Rightarrow>
                         if t \<noteq> [] then Headers_set h ''Authorization'' (''Bearer '' @ t)
                         else Inr h))
      in case r2 of
           Inl e \<Rightarrow> Inl e
         | Inr h \<Rightarrow> set_entries extra h)"

section \<open>The CSRF token\<close>

subsection \<open>\<open>getCookie\<close> (utils.js, lines 1564-1574)\<close>

definition is_js_space :: "char \<Rightarrow> bool" where
  "is_js_space c = ((of_char c :: nat) \<in> set [9, 10, 11, 12, 13, 32, 160])"

definition js_trim :: "string \<Rightarrow> string" where
  "js_trim s = rev (dropWhile is_js_space (rev (dropWhile is_js_space s)))"

text \<open>\<open>s.split(sep)\<close> for a separator of one character; the empty string gives \<open>[""]\<close>.\<close>

fun split_on :: "char \<Rightarrow> string \<Rightarrow> string list" where
  "split_on sep [] = [[]]"
| "split_on sep (c # cs) =
     (if c = sep then [] # split_on sep cs
      else case split_on sep cs of
             [] \<Rightarrow> [[c]]
           | w # ws \<Rightarrow> (c # w) # ws)"

text \<open>\<open>.replace(/^"+|"+$/g, '')\<close>: the double quotes at both ends go.\<close>

definition strip_quotes :: "string \<Rightarrow> string" where
  "strip_quotes s =
     rev (dropWhile (\<lambda>c. c = CHR 0x22) (rev (dropWhile (\<lambda>c. c = CHR 0x22) s)))"

definition getCookie :: "string \<Rightarrow> string \<Rightarrow> string option" where
  "getCookie document_cookie name =
     (if document_cookie = [] then None
      else case find (\<lambda>c. startsWith c (name @ ''='')) (map js_trim (split_on CHR '';'' document_cookie)) of
             None \<Rightarrow> None
           | Some c \<Rightarrow>
               (case split_on CHR ''='' c of
                  x # v # rest \<Rightarrow> Some (strip_quotes v)
                | _ \<Rightarrow> None))"

subsection \<open>\<open>getCSRFToken\<close> (utils.js, lines 1577-1610)\<close>

text \<open>
  The page as the resolver sees it: \<open>csrf_input\<close> is the \<open>value\<close> of the first
  \<open>input[name="csrfmiddlewaretoken"]\<close> (\<open>None\<close> when no element matches),
  \<open>csrf_meta\<close> the \<open>content\<close> of the first \<open>meta[name="csrf-token"]\<close>. The closure's
  variable \<open>cachedToken\<close> is the state; \<open>lookups\<close> logs each access to the page.
\<close>

record dom =
  csrf_input :: "string option"
  csrf_meta :: "string option"
  document_cookie :: string

datatype lookup = QueryInput | QueryMeta | ReadCookie

record csrf_state =
  cachedToken :: "string option"
  lookups :: "lookup list"

definition csrf_initial :: csrf_state where
  "csrf_initial = \<lparr>cachedToken = None, lookups = []\<rparr>"

definition getCSRFToken :: "dom \<Rightarrow> csrf_state \<Rightarrow> string option \<times> csrf_state" where
  "getCSRFToken d st =
     (if truthy_str (cachedToken st) then (cachedToken st, st)
      else
        (let st1 = st\<lparr>lookups := lookups st @ [QueryInput]\<rparr>
         in if truthy_str (csrf_input d) then (csrf_input d, st1\<lparr>cachedToken := csrf_input d\<rparr>)
            else
              (let st2 = st1\<lparr>lookups := lookups st1 @ [QueryMeta]\<rparr>
               in if truthy_str (csrf_meta d) then (csrf_meta d, st2\<lparr>cachedToken := csrf_meta d\<rparr>)
                  else
                    (let st3 = st2\<lparr>lookups := lookups st2 @ [ReadCookie]\<rparr>;
                         cookieToken = getCookie (document_cookie d) ''csrftoken''
                     in if truthy_str cookieToken then (cookieToken, st3\<lparr>cachedToken := cookieToken\<rparr>)
                        else (None, st3)))))"

subsection \<open>\<open>fetchWithCSRF\<close> (utils.js, lines 1614-1630)\<close>

definition fetchWithCSRF ::
    "(nat \<Rightarrow> transport) \<Rightarrow> dom \<Rightarrow> csrf_state \<Rightarrow> string \<Rightarrow> options \<Rightarrow> (outcome \<times> fetch_state) \<times> csrf_state" where
  "fetchWithCSRF env d cst url opts0 =
     (let (csrfToken, cst') = getCSRFToken d cst;
          headers = spread [(''X-CSRFToken'', case csrfToken of None \<Rightarrow> JNull | Some t \<Rightarrow> JStr t)]
                      (case opt_headers opts0 of None \<Rightarrow> [] | Some h \<Rightarrow> h)
      in (safeFetch env url
            (opts0\<lparr>opt_headers := Some headers,
                   opt_method := Some (or_else (opt_method opts0) ''POST'')\<rparr>)
            \<lparr>cfg_autoJSON = Some True, cfg_retries = None, cfg_timeout = None\<rparr>,
          cst'))"

section \<open>Notions used in the statements\<close>

text \<open>
  The transport's own answer fails the attempt: it rejects, or it responds and the
  \<open>try\<close> block turns the response into a throw (a status outside the success range, or a
  JSON body that does not parse). Staying silent is no answer; what a silent transport
  does to an attempt depends on the timer, see \<open>calls_fail\<close>.
\<close>

definition answer_fails :: "transport \<Rightarrow> bool" where
  "answer_fails t =
     (case t of
        Fails e \<Rightarrow> True
      | Responds r \<Rightarrow> (if ok r then isl (read_body r) else True)
      | Silent \<Rightarrow> False)"

text \<open>
  The transport fails on each of the \<open>n\<close> calls from call number \<open>k\<close> on, \<open>timer\<close>
  telling whether the timeout is still pending before call \<open>k\<close>. A call fails by the
  transport's answer, or by the timeout: a transport that stays silent while the timer is
  pending gets the call aborted, and every later call is then rejected at once, whatever
  the transport would do. A response, failing or not, clears the timer; a transport that
  stays silent after that fails nothing, the call hangs.
\<close>

fun calls_fail :: "(nat \<Rightarrow> transport) \<Rightarrow> bool \<Rightarrow> nat \<Rightarrow> nat \<Rightarrow> bool" where
  "calls_fail env timer k 0 = True"
| "calls_fail env timer k (Suc n) =
     (case env k of
        Silent \<Rightarrow> timer
      | Fails e \<Rightarrow> calls_fail env timer (Suc k) n
      | Responds r \<Rightarrow> answer_fails (Responds r) \<and> calls_fail env False (Suc k) n)"

text \<open>
  The body passes the encoding step of \<open>safeFetch\<close>: it is not handed to
  \<open>JSON.stringify\<close>, or \<open>JSON.stringify\<close> returns a text for it.
\<close>

definition encodes :: "bool \<Rightarrow> jsval \<Rightarrow> bool" where
  "encodes autoJSON b =
     (if autoJSON \<and> truthy b \<and> typeof_object b \<and> \<not> instanceof_FormData b
      then serializable b else True)"

text \<open>
  What \<open>safeFetch\<close> hands to the loop when the body encodes.
\<close>

definition encoded_request :: "string \<Rightarrow> options \<Rightarrow> config \<Rightarrow> request" where
  "encoded_request url opts0 cfg =
     (let headers = spread [(''Accept'', JStr ''application/json'')]
                      (case opt_headers opts0 of None \<Rightarrow> [] | Some h \<Rightarrow> h);
          b = opt_body opts0
      in if config_autoJSON cfg \<and> truthy b \<and> typeof_object b \<and> \<not> instanceof_FormData b
         then \<lparr>req_url = url, req_method = opt_method opts0,
                req_headers = AList.update ''Content-Type'' (JStr ''application/json'') headers,
                req_body = JsonText b, signal_aborted = False\<rparr>
         else \<lparr>req_url = url, req_method = opt_method opts0, req_headers = headers,
                req_body = Raw b, signal_aborted = False\<rparr>)"

text \<open>
  The value the last entry of \<open>extra\<close> gives a header, names compared without case
  (as a \<open>Headers\<close> object does).
\<close>

definition last_extra :: "(string \<times> string) list \<Rightarrow> string \<Rightarrow> string option" where
  "last_extra es name =
     map_of (rev (map (\<lambda>p. (toLowerCase (fst p), normalize_value (snd p))) es)) (toLowerCase name)"

text \<open>
  The value of the bearer header: \<open>Bearer <token>\<close>, set for a token that is a
  non-empty string.
\<close>

definition bearer :: "header_config \<Rightarrow> string option" where
  "bearer cfg =
     (case token cfg of
        None \<Rightarrow> None
      | Some t \<Rightarrow> if t = [] then None else Some (normalize_value (''Bearer '' @ t)))"

text \<open>
  The token sources in the specification's order: the form field, then the meta tag, then
  the cookie \<open>csrftoken\<close>; the first one that yields a non-empty string wins.
\<close>

definition resolve_spec :: "dom \<Rightarrow> string option" where
  "resolve_spec d =
     (if truthy_str (csrf_input d) then csrf_input d
      else if truthy_str (csrf_meta d) then csrf_meta d
      else if truthy_str (getCookie (document_cookie d) ''csrftoken'')
           then getCookie (document_cookie d) ''csrftoken''
      else None)"

subsection \<open>Sample inputs\<close>

definition ok_json_response :: response where
  "ok_json_response =
     \<lparr>status = 200, statusText = ''OK'', ok = True, resp_url = ''/x'',
      content_type = Some ''application/json'', text_body = ''{}'',
      json_body = Some (JObj [(''ok'', JBool True)]), bodyUsed = False, body_is_null = False\<rparr>"

definition json_null_response :: response where
  "json_null_response =
     \<lparr>status = 200, statusText = ''OK'', ok = True, resp_url = ''/x'',
      content_type = Some ''application/json'', text_body = ''null'',
      json_body = Some JNull, bodyUsed = False, body_is_null = False\<rparr>"

definition not_found_response :: response where
  "not_found_response =
     \<lparr>status = 404, statusText = ''Not Found'', ok = False, resp_url = ''/x'',
      content_type = Some ''text/plain'', text_body = ''no such item'',
      json_body = None, bodyUsed = False, body_is_null = False\<rparr>"

definition get_options :: options where
  "get_options = \<lparr>opt_method = Some ''GET'', opt_headers = None, opt_body = JUndefined\<rparr>"

definition no_config :: config where
  "no_config = \<lparr>cfg_autoJSON = None, cfg_retries = None, cfg_timeout = None\<rparr>"

definition page_with_input :: dom where
  "page_with_input = \<lparr>csrf_input = Some ''tok123'', csrf_meta = Some ''meta456'', document_cookie = ''csrftoken=abc''\<rparr>"

definition page_without_token :: dom where
  "page_without_token = \<lparr>csrf_input = None, csrf_meta = None, document_cookie = ''theme=dark''\<rparr>"

definition page_with_cookie :: dom where
  "page_with_cookie = \<lparr>csrf_input = Some [], csrf_meta = None, document_cookie = ''theme=dark; csrftoken=abc''\<rparr>"

section \<open>Properties\<close>

declare show_nat.simps [simp del]

declare attempt_loop.simps [simp del]

lemmas eval_defs =
  safeFetch_def config_autoJSON_def config_retries_def config_timeout_def spread_def
  JSON_stringify_def try_block_def fetch_call_def read_body_def http_error_def
  attempt_loop.simps Let_def show_int_def show_nat.simps
  TypeError_def AbortError_def SyntaxError_def ReferenceError_def startsWith_def

subsection \<open>The response classifier\<close>

lemma startsWith_prefix: "startsWith s pat = prefix pat s"
  by (auto simp: startsWith_def prefix_def) (metis append_eq_conv_conj)

lemma includes_sublist: "js_includes s pat = sublist pat s"
proof (induction s)
  case Nil
  show ?case by auto
next
  case (Cons c cs)
  show ?case
    by (simp add: Cons.IH startsWith_prefix sublist_Cons_right del: startsWith_def)
qed

text \<open>
  C6. The response classifier maps the content-type header by first-match-wins,
  case-insensitive rules (contains application/json: json; prefix text/: text; prefix
  multipart/: multipart; prefix image/, audio/ or video/, or contains
  application/octet-stream or application/pdf: the binary category; anything else, an
  absent header included: unknown). It is a function of the header alone: two responses
  whose headers agree up to letter case get the same category.
\<close>

theorem getResponseType_classifies:
  "getResponseType r = classify_spec (content_type r)
   \<and> (content_type r = None \<longrightarrow> getResponseType r = Unknown)
   \<and> (map_option toLowerCase (content_type r) = map_option toLowerCase (content_type r')
        \<longrightarrow> getResponseType r = getResponseType r')"
proof -
  have eq: "getResponseType x = classify_spec (content_type x)" for x
  proof (cases "content_type x")
    case None
    then show ?thesis
      by (simp add: getResponseType_def classify_spec_def toLowerCase_def startsWith_def)
  next
    case (Some h)
    then show ?thesis
      by (cases "h = []")
        (auto simp: getResponseType_def classify_spec_def Let_def includes_sublist startsWith_prefix)
  qed
  show ?thesis
  proof (intro conjI impI)
    show "getResponseType r = classify_spec (content_type r)" by (rule eq)
  next
    assume "content_type r = None"
    then show "getResponseType r = Unknown" by (simp add: eq classify_spec_def)
  next
    assume "map_option toLowerCase (content_type r) = map_option toLowerCase (content_type r')"
    then have "classify_spec (content_type r) = classify_spec (content_type r')"
      by (cases "content_type r"; cases "content_type r'") (simp_all add: classify_spec_def)
    then show "getResponseType r = getResponseType r'" by (simp add: eq)
  qed
qed

text \<open>
  The theorem at an upper-case image type, at an absent header, and at two different
  responses whose headers differ in case only.
\<close>

theorem getResponseType_classifies_witness:
  "getResponseType (ok_json_response\<lparr>content_type := Some ''IMAGE/png''\<rparr>) = Blob
   \<and> getResponseType (ok_json_response\<lparr>content_type := None\<rparr>) = Unknown
   \<and> getResponseType (ok_json_response\<lparr>content_type := Some ''IMAGE/png''\<rparr>)
       = getResponseType (not_found_response\<lparr>content_type := Some ''image/PNG''\<rparr>)"
proof -
  let ?r = "ok_json_response\<lparr>content_type := Some ''IMAGE/png''\<rparr>"
  let ?r' = "not_found_response\<lparr>content_type := Some ''image/PNG''\<rparr>"
  let ?n = "ok_json_response\<lparr>content_type := None\<rparr>"
  have a: "classify_spec (Some ''IMAGE/png'') = Blob" by code_simp
  have b: "map_option toLowerCase (content_type ?r) = map_option toLowerCase (content_type ?r')" by code_simp
  have t1: "getResponseType ?r = classify_spec (content_type ?r)"
    and t3: "map_option toLowerCase (content_type ?r) = map_option toLowerCase (content_type ?r')
             \<longrightarrow> getResponseType ?r = getResponseType ?r'"
    using getResponseType_classifies [of ?r ?r'] by blast+
  have t2: "getResponseType ?n = Unknown"
    using getResponseType_classifies [of ?n ?n] by (simp add: classify_spec_def)
  from t1 a have "getResponseType ?r = Blob" by simp
  moreover from t3 b have "getResponseType ?r = getResponseType ?r'" by blast
  ultimately show ?thesis using t2 by blast
qed

subsection \<open>Binary detection\<close>

text \<open>
  C7. \<open>objectContainsFile\<close> is to return \<open>true\<close> for a structure with a file among
  its leaves and \<open>false\<close> for an all-text or empty structure, never faulting. In
  \<^verbatim>\<open>utils.js\<close> it throws a \<open>ReferenceError\<close> on every plain object (all-text,
  empty or file-bearing) and on every non-empty \<open>FormData\<close>, where its documentation
  promises \<open>false\<close> and \<open>true\<close>; the function \<open>containsFile\<close> of the other copy
  answers as documented.
\<close>

theorem objectContainsFile_throws_ReferenceError:
  "objectContainsFile (JObj [(''username'', JStr ''alice'')]) = Inl (ReferenceError ''containsFile'')
   \<and> objectContainsFile (JObj []) = Inl (ReferenceError ''containsFile'')
   \<and> objectContainsFile (JObj [(''avatar'', JFile ''a.png'')]) = Inl (ReferenceError ''containsFile'')
   \<and> objectContainsFile (JFormData [(''avatar'', JFile ''a.png'')]) = Inl (ReferenceError ''containsFile'')
   \<and> formParser_containsFile (JObj [(''username'', JStr ''alice'')]) = False
   \<and> formParser_containsFile (JObj [(''avatar'', JFile ''a.png'')]) = True"
  by (simp add: objectContainsFile_def module_containsFile_def call_containsFile_def)

subsection \<open>The retry loop\<close>

lemma try_block_fails:
  assumes "answer_fails (env (length (calls st)))"
  shows "\<exists>e st'. try_block env opts st = (Threw e, st')
           \<and> calls st' = calls st @ [opts\<lparr>signal_aborted := aborted st\<rparr>]
           \<and> aborted st' = aborted st"
  using assms
  by (cases "env (length (calls st))")
     (auto simp: try_block_def fetch_call_def answer_fails_def Let_def isl_def split: if_splits sum.splits)

lemma try_block_calls:
  "try_block env opts st = (res, st') \<Longrightarrow> calls st' = calls st @ [opts\<lparr>signal_aborted := aborted st\<rparr>]"
  by (cases "env (length (calls st))")
     (auto simp: try_block_def fetch_call_def Let_def split: if_splits sum.splits)

lemma try_block_returned:
  "try_block env opts st = (Returned d, st') \<Longrightarrow>
     \<exists>r. env (length (calls st)) = Responds r \<and> ok r \<and> read_body r = Inr d"
  by (cases "env (length (calls st))")
     (auto simp: try_block_def fetch_call_def Let_def split: if_splits sum.splits)

lemma try_block_http:
  "\<lbrakk>env (length (calls st)) = Responds r; \<not> aborted st; \<not> ok r; read_body r = Inr data\<rbrakk>
   \<Longrightarrow> fst (try_block env opts st) = Threw (http_error r data)"
  by (simp add: try_block_def fetch_call_def Let_def)

lemma try_block_no_timer:
  assumes "try_block env opts st = (res, st')" and "\<not> aborted st" and "\<not> timer_pending st"
  shows "\<not> aborted st' \<and> \<not> timer_pending st' \<and> (res = Hung) = (env (length (calls st)) = Silent)"
  using assms
  by (cases "env (length (calls st))")
     (auto simp: try_block_def fetch_call_def Let_def split: if_splits sum.splits)

lemma try_block_calls_fail:
  assumes "aborted st \<or> calls_fail env (timer_pending st) (length (calls st)) (Suc n)"
  shows "\<exists>e st'. try_block env opts st = (Threw e, st')
           \<and> calls st' = calls st @ [opts\<lparr>signal_aborted := aborted st\<rparr>]
           \<and> (aborted st' \<or> calls_fail env (timer_pending st') (Suc (length (calls st))) n)"
proof (cases "aborted st")
  case True
  then show ?thesis by (simp add: try_block_def fetch_call_def Let_def)
next
  case False
  with assms have c: "calls_fail env (timer_pending st) (length (calls st)) (Suc n)" by simp
  show ?thesis
  proof (cases "env (length (calls st))")
    case (Responds r)
    with c False show ?thesis
      by (auto simp: try_block_def fetch_call_def answer_fails_def Let_def isl_def
               split: if_splits sum.splits)
  next
    case (Fails e)
    with c False show ?thesis by (simp add: try_block_def fetch_call_def Let_def)
  next
    case Silent
    with c False show ?thesis by (simp add: try_block_def fetch_call_def Let_def)
  qed
qed

lemma loop_calls_fail:
  assumes "aborted st \<or> calls_fail env (timer_pending st) (length (calls st)) (Suc (nat (retries - attempts)))"
    and "attempts \<le> retries"
  shows "\<exists>e st'. attempt_loop env opts retries attempts st = (Resolved (Some e) JNull, st')
           \<and> length (calls st') = length (calls st) + nat (retries - attempts) + 1"
  using assms
proof (induction "nat (retries - attempts)" arbitrary: attempts st)
  case 0
  then have eq: "attempts = retries" by simp
  obtain e st' where t: "try_block env opts st = (Threw e, st')"
      and c: "calls st' = calls st @ [opts\<lparr>signal_aborted := aborted st\<rparr>]"
    using try_block_calls_fail [of st env "nat (retries - attempts)" opts] "0.prems"(1) by blast
  show ?case
    using t c eq by (simp add: attempt_loop.simps)
next
  case (Suc n)
  then have lt: "attempts < retries" and n: "n = nat (retries - (attempts + 1))" by linarith+
  from Suc.hyps(2) Suc.prems(1)
  have "aborted st \<or> calls_fail env (timer_pending st) (length (calls st)) (Suc (Suc n))" by simp
  then obtain e st' where t: "try_block env opts st = (Threw e, st')"
      and c: "calls st' = calls st @ [opts\<lparr>signal_aborted := aborted st\<rparr>]"
      and f: "aborted st' \<or> calls_fail env (timer_pending st') (Suc (length (calls st))) (Suc n)"
    using try_block_calls_fail [of st env "Suc n" opts] by blast
  from lt have le: "attempts + 1 \<le> retries" by simp
  from f c n
  have f': "aborted st' \<or> calls_fail env (timer_pending st') (length (calls st')) (Suc (nat (retries - (attempts + 1))))"
    by simp
  obtain e' st'' where r: "attempt_loop env opts retries (attempts + 1) st' = (Resolved (Some e') JNull, st'')"
      and l: "length (calls st'') = length (calls st') + nat (retries - (attempts + 1)) + 1"
    using Suc.hyps(1) [OF n f' le] by blast
  have "attempt_loop env opts retries attempts st = attempt_loop env opts retries (attempts + 1) st'"
    using t lt by (subst attempt_loop.simps) simp
  moreover have "length (calls st'') = length (calls st) + nat (retries - attempts) + 1"
    using l c lt by simp
  ultimately show ?case using r by simp
qed

lemma loop_pair:
  "attempt_loop env opts retries attempts st = (Resolved e d, st') \<Longrightarrow>
     (e \<noteq> None \<longrightarrow> d = JNull)
     \<and> (e = None \<longrightarrow> calls st' \<noteq> [] \<and>
          (\<exists>r. env (length (calls st') - 1) = Responds r \<and> ok r \<and> read_body r = Inr d))"
proof (induction env opts retries attempts st rule: attempt_loop.induct)
  case (1 env opts retries attempts st)
  show ?case
  proof (cases "attempts \<le> retries")
    case False
    with "1.prems" show ?thesis by (simp add: attempt_loop.simps)
  next
    case le: True
    obtain res st1 where t: "try_block env opts st = (res, st1)" by (cases "try_block env opts st")
    note c = try_block_calls [OF t]
    show ?thesis
    proof (cases res)
      case (Returned data)
      with t le "1.prems" have "e = None" "d = data" "st' = st1"
        by (simp_all add: attempt_loop.simps)
      moreover from t Returned try_block_returned
      have "\<exists>r. env (length (calls st)) = Responds r \<and> ok r \<and> read_body r = Inr data" by blast
      ultimately show ?thesis using c by simp
    next
      case Hung
      with t le "1.prems" show ?thesis by (simp add: attempt_loop.simps)
    next
      case (Threw err)
      show ?thesis
      proof (cases "attempts < retries")
        case True
        with t le Threw "1.prems"
        have "attempt_loop env opts retries (attempts + 1) st1 = (Resolved e d, st')"
          by (simp add: attempt_loop.simps)
        with "1.IH" [OF le t [symmetric] Threw True] show ?thesis by simp
      next
        case False
        with t le Threw "1.prems" show ?thesis by (auto simp: attempt_loop.simps)
      qed
    qed
  qed
qed

lemma loop_fail_then_http:
  assumes "\<And>k. length (calls st) \<le> k \<Longrightarrow> k < length (calls st) + nat (retries - attempts) \<Longrightarrow> answer_fails (env k)"
    and "env (length (calls st) + nat (retries - attempts)) = Responds r"
    and "\<not> ok r" and "read_body r = Inr data" and "attempts \<le> retries" and "\<not> aborted st"
  shows "fst (attempt_loop env opts retries attempts st) = Resolved (Some (http_error r data)) JNull"
  using assms(1,2,5,6)
proof (induction "nat (retries - attempts)" arbitrary: attempts st)
  case 0
  then have eq: "attempts = retries" by simp
  with 0 have "env (length (calls st)) = Responds r" by simp
  with try_block_http [of env st r data opts] "0.prems"(4) assms(3,4)
  have "fst (try_block env opts st) = Threw (http_error r data)" by simp
  then show ?case using eq
    by (cases "try_block env opts st") (simp add: attempt_loop.simps)
next
  case (Suc n)
  then have lt: "attempts < retries" and n: "n = nat (retries - (attempts + 1))" by linarith+
  have "answer_fails (env (length (calls st)))"
    using Suc.prems(1) [of "length (calls st)"] lt by simp
  then obtain e st' where t: "try_block env opts st = (Threw e, st')"
      and c: "calls st' = calls st @ [opts\<lparr>signal_aborted := aborted st\<rparr>]"
      and a: "aborted st' = aborted st"
    using try_block_fails [of env st opts] by blast
  have len: "length (calls st') + nat (retries - (attempts + 1)) = length (calls st) + nat (retries - attempts)"
    using c lt by simp
  have "fst (attempt_loop env opts retries (attempts + 1) st') = Resolved (Some (http_error r data)) JNull"
  proof (rule Suc.hyps(1) [OF n])
    show "answer_fails (env k)"
      if "length (calls st') \<le> k" "k < length (calls st') + nat (retries - (attempts + 1))" for k
      using that Suc.prems(1) [of k] c len by simp
    show "env (length (calls st') + nat (retries - (attempts + 1))) = Responds r"
      using Suc.prems(2) len by simp
    show "attempts + 1 \<le> retries" using lt by simp
    show "\<not> aborted st'" using a Suc.prems(4) by simp
  qed
  moreover have "attempt_loop env opts retries attempts st = attempt_loop env opts retries (attempts + 1) st'"
    using t lt by (subst attempt_loop.simps) simp
  ultimately show ?case by simp
qed

lemma loop_once:
  assumes "attempt_loop env opts 0 0 st = (out, st')" and "\<not> aborted st" and "\<not> timer_pending st"
  shows "calls st' = calls st @ [opts\<lparr>signal_aborted := False\<rparr>]
         \<and> \<not> aborted st' \<and> \<not> timer_pending st'
         \<and> (out = Pending) = (env (length (calls st)) = Silent)"
proof -
  obtain res st1 where t: "try_block env opts st = (res, st1)" by (cases "try_block env opts st")
  from assms(1) t have st: "st' = st1"
    by (cases res) (simp_all add: attempt_loop.simps)
  from assms(1) t have h: "(out = Pending) = (res = Hung)"
    by (cases res) (auto simp: attempt_loop.simps)
  from try_block_calls [OF t] try_block_no_timer [OF t assms(2,3)] st h assms(2)
  show ?thesis by auto
qed

lemma safeFetch_encodes:
  "encodes (config_autoJSON cfg) (opt_body opts0) \<Longrightarrow>
   safeFetch env url opts0 cfg =
     attempt_loop env (encoded_request url opts0 cfg) (config_retries cfg) 0
       \<lparr>aborted = False, timer_pending = (config_timeout cfg \<noteq> 0), calls = []\<rparr>"
  by (auto simp: safeFetch_def encodes_def encoded_request_def JSON_stringify_def Let_def)

lemma safeFetch_not_encodes:
  "\<not> encodes (config_autoJSON cfg) (opt_body opts0) \<Longrightarrow>
   safeFetch env url opts0 cfg =
     (Rejected (TypeError ''Do not know how to serialize a BigInt''),
      \<lparr>aborted = False, timer_pending = (config_timeout cfg \<noteq> 0), calls = []\<rparr>)"
  by (auto simp: safeFetch_def encodes_def JSON_stringify_def Let_def split: if_splits)

lemma encoded_request_method: "req_method (encoded_request url opts0 cfg) = opt_method opts0"
  by (simp add: encoded_request_def Let_def)

lemma read_body_null: "read_body r = Inr JNull \<Longrightarrow> json_body r = Some JNull"
  by (auto simp: read_body_def split: if_splits option.splits)

text \<open>
  C1. \<open>safeFetch\<close> is to catch every fault and resolve with a pair, a serialization
  failure included. \<open>JSON.stringify\<close> runs before the \<open>try\<close> block: for a body it
  refuses, the promise rejects with the \<open>TypeError\<close> and the transport is never called,
  whatever the retry budget.
\<close>

theorem safeFetch_unserializable_body_rejects:
  "safeFetch (\<lambda>k. Responds ok_json_response) ''/api/items''
     \<lparr>opt_method = Some ''POST'', opt_headers = None, opt_body = JObj [(''id'', JBigInt 1)]\<rparr>
     \<lparr>cfg_autoJSON = None, cfg_retries = Some 3, cfg_timeout = Some 5000\<rparr>
   = (Rejected (TypeError ''Do not know how to serialize a BigInt''),
      \<lparr>aborted = False, timer_pending = True, calls = []\<rparr>)"
  by (simp add: eval_defs ok_json_response_def)

text \<open>
  C2. Every retry attempt is to get a fresh cancellation token, so that a timeout abort
  on one attempt leaves the next attempts with a signal that is not aborted. The
  controller and the timer are created once, before the loop: when the timer fires on the
  first attempt, the two retries are issued with the aborted signal and rejected at once,
  although the transport would have answered them.
\<close>

theorem safeFetch_timeout_abort_reaches_retries:
  "fst (safeFetch (\<lambda>k. if k = 0 then Silent else Responds ok_json_response) ''/x'' get_options
          \<lparr>cfg_autoJSON = None, cfg_retries = Some 2, cfg_timeout = Some 5000\<rparr>)
     = Resolved (Some AbortError) JNull
   \<and> map signal_aborted (calls (snd (safeFetch (\<lambda>k. if k = 0 then Silent else Responds ok_json_response) ''/x'' get_options
          \<lparr>cfg_autoJSON = None, cfg_retries = Some 2, cfg_timeout = Some 5000\<rparr>)))
     = [False, True, True]"
  by (simp add: eval_defs ok_json_response_def get_options_def)

text \<open>
  C4, as amended. With \<open>retries = N \<ge> 0\<close>, a body that passes the encoding step and a
  transport that fails on each of the \<open>N + 1\<close> attempts (by its answer or by the timeout
  abort), the transport is invoked exactly \<open>N + 1\<close> times and the call resolves with
  \<open>(error, null)\<close>; \<open>N = 0\<close> gives one attempt.
\<close>

theorem safeFetch_retry_count:
  assumes "0 \<le> config_retries cfg"
    and "encodes (config_autoJSON cfg) (opt_body opts0)"
    and "calls_fail env (config_timeout cfg \<noteq> 0) 0 (nat (config_retries cfg) + 1)"
  shows "\<exists>e st. safeFetch env url opts0 cfg = (Resolved (Some e) JNull, st)
           \<and> length (calls st) = nat (config_retries cfg) + 1"
  using loop_calls_fail [of "\<lparr>aborted = False, timer_pending = (config_timeout cfg \<noteq> 0), calls = []\<rparr>"
          env "config_retries cfg" 0 "encoded_request url opts0 cfg"]
        assms
  by (simp add: safeFetch_encodes)

text \<open>
  The theorem for two retries under a timeout: a network fault, then a call the transport
  leaves unanswered until the timeout aborts it, then a call rejected at once; three
  calls.
\<close>

theorem safeFetch_retry_count_witness:
  "0 \<le> config_retries \<lparr>cfg_autoJSON = None, cfg_retries = Some 2, cfg_timeout = Some 5000\<rparr>
   \<and> encodes True JUndefined
   \<and> calls_fail (\<lambda>k. if k = 0 then Fails (TypeError ''Failed to fetch'') else Silent) True 0 3
   \<and> (\<exists>e st. safeFetch (\<lambda>k. if k = 0 then Fails (TypeError ''Failed to fetch'') else Silent) ''/x'' get_options
                 \<lparr>cfg_autoJSON = None, cfg_retries = Some 2, cfg_timeout = Some 5000\<rparr>
               = (Resolved (Some e) JNull, st) \<and> length (calls st) = 3)"
proof -
  let ?cfg = "\<lparr>cfg_autoJSON = None, cfg_retries = Some 2, cfg_timeout = Some 5000\<rparr>"
  let ?env = "\<lambda>k::nat. if k = 0 then Fails (TypeError ''Failed to fetch'') else Silent"
  have a: "0 \<le> config_retries ?cfg" by (simp add: config_retries_def)
  have b: "encodes (config_autoJSON ?cfg) (opt_body get_options)"
    by (simp add: encodes_def get_options_def)
  have c: "calls_fail ?env True 0 3" by code_simp
  have c': "calls_fail ?env (config_timeout ?cfg \<noteq> 0) 0 (nat (config_retries ?cfg) + 1)"
    using c by (simp add: config_timeout_def config_retries_def)
  have d: "encodes True JUndefined" by (simp add: encodes_def)
  from safeFetch_retry_count [of ?cfg get_options ?env "''/x''", OF a b c']
  show ?thesis using a c d by (simp add: config_retries_def)
qed

text \<open>
  C4 as stated fails: with three retries and a transport that rejects every call, a body
  that \<open>JSON.stringify\<close> refuses leaves the transport uninvoked, not invoked four times.
\<close>

theorem safeFetch_unencodable_body_no_attempt:
  "fst (safeFetch (\<lambda>k. Fails (TypeError ''Failed to fetch'')) ''/api/items''
          \<lparr>opt_method = Some ''POST'', opt_headers = None, opt_body = JObj [(''id'', JBigInt 1)]\<rparr>
          \<lparr>cfg_autoJSON = None, cfg_retries = Some 3, cfg_timeout = None\<rparr>)
     = Rejected (TypeError ''Do not know how to serialize a BigInt'')
   \<and> calls (snd (safeFetch (\<lambda>k. Fails (TypeError ''Failed to fetch'')) ''/api/items''
          \<lparr>opt_method = Some ''POST'', opt_headers = None, opt_body = JObj [(''id'', JBigInt 1)]\<rparr>
          \<lparr>cfg_autoJSON = None, cfg_retries = Some 3, cfg_timeout = None\<rparr>)) = []"
  by (simp add: eval_defs)

text \<open>
  C3, as amended. A pair that \<open>safeFetch\<close> resolves with never has both sides
  populated: an error comes with \<open>null\<close> data, and without an error the data is the
  body read from the last response, a success; the data is \<open>null\<close> there only for a
  JSON body that is \<open>null\<close>.
\<close>

theorem safeFetch_pair_sides:
  assumes "safeFetch env url opts0 cfg = (Resolved e d, st)"
  shows "(e \<noteq> None \<longrightarrow> d = JNull)
       \<and> (e = None \<longrightarrow> calls st \<noteq> [] \<and>
            (\<exists>r. env (length (calls st) - 1) = Responds r \<and> ok r \<and> read_body r = Inr d
                 \<and> (d = JNull \<longrightarrow> json_body r = Some JNull)))"
proof (cases "encodes (config_autoJSON cfg) (opt_body opts0)")
  case True
  from assms have "attempt_loop env (encoded_request url opts0 cfg) (config_retries cfg) 0
       \<lparr>aborted = False, timer_pending = (config_timeout cfg \<noteq> 0), calls = []\<rparr> = (Resolved e d, st)"
    by (simp add: safeFetch_encodes [OF True])
  from loop_pair [OF this] show ?thesis using read_body_null by blast
next
  case False
  from assms show ?thesis by (simp add: safeFetch_not_encodes [OF False])
qed

text \<open>
  The theorem at a successful JSON response.
\<close>

theorem safeFetch_pair_sides_witness:
  "safeFetch (\<lambda>k. Responds ok_json_response) ''/x'' get_options no_config
     = (Resolved None (JObj [(''ok'', JBool True)]),
        \<lparr>aborted = False, timer_pending = False,
         calls = [\<lparr>req_url = ''/x'', req_method = Some ''GET'',
                   req_headers = [(''Accept'', JStr ''application/json'')],
                   req_body = Raw JUndefined, signal_aborted = False\<rparr>]\<rparr>)
   \<and> (\<exists>r. Responds ok_json_response = Responds r \<and> ok r
          \<and> read_body r = Inr (JObj [(''ok'', JBool True)]))"
proof -
  have h: "safeFetch (\<lambda>k. Responds ok_json_response) ''/x'' get_options no_config
     = (Resolved None (JObj [(''ok'', JBool True)]),
        \<lparr>aborted = False, timer_pending = False,
         calls = [\<lparr>req_url = ''/x'', req_method = Some ''GET'',
                   req_headers = [(''Accept'', JStr ''application/json'')],
                   req_body = Raw JUndefined, signal_aborted = False\<rparr>]\<rparr>)"
    by (simp add: eval_defs ok_json_response_def get_options_def no_config_def)
  from safeFetch_pair_sides [OF h] show ?thesis using h by auto
qed

text \<open>
  C3 as stated fails: a successful response whose JSON body is \<open>null\<close> resolves with
  \<open>[null, null]\<close>, neither side populated.
\<close>

theorem safeFetch_json_null_both_sides_null:
  "fst (safeFetch (\<lambda>k. Responds json_null_response) ''/x'' get_options no_config) = Resolved None JNull"
  by (simp add: eval_defs json_null_response_def get_options_def no_config_def)

text \<open>
  C5, as amended. When the attempts before the last fail by the transport's answer
  (so that no timeout abort keeps the last response from arriving) and the last one gets
  a response outside the success range whose body reads, \<open>safeFetch\<close> resolves with
  \<open>(error, null)\<close> where \<open>error\<close> is the \<open>Error\<close> built in the loop: its message is
  \<open>HTTP <status>: <statusText>\<close>, its \<open>status\<close> is the response's status and its
  \<open>data\<close> is the body read.
\<close>

theorem safeFetch_http_error:
  assumes "0 \<le> config_retries cfg"
    and "encodes (config_autoJSON cfg) (opt_body opts0)"
    and "\<And>k. k < nat (config_retries cfg) \<Longrightarrow> answer_fails (env k)"
    and "env (nat (config_retries cfg)) = Responds r"
    and "\<not> ok r"
    and "read_body r = Inr data"
  shows "fst (safeFetch env url opts0 cfg) = Resolved (Some (http_error r data)) JNull
       \<and> err_message (http_error r data) = ''HTTP '' @ show_int (status r) @ '': '' @ statusText r
       \<and> err_props (http_error r data) = [(''status'', JNum (status r)), (''data'', data)]"
proof -
  have "fst (attempt_loop env (encoded_request url opts0 cfg) (config_retries cfg) 0
          \<lparr>aborted = False, timer_pending = (config_timeout cfg \<noteq> 0), calls = []\<rparr>)
        = Resolved (Some (http_error r data)) JNull"
    by (rule loop_fail_then_http) (use assms in simp_all)
  then show ?thesis by (simp add: safeFetch_encodes [OF assms(2)] http_error_def)
qed

text \<open>
  The theorem for one retry: a network fault, then a 404.
\<close>

theorem safeFetch_http_error_witness:
  "0 \<le> config_retries \<lparr>cfg_autoJSON = None, cfg_retries = Some 1, cfg_timeout = None\<rparr>
   \<and> encodes True JUndefined
   \<and> answer_fails (Fails (TypeError ''Failed to fetch''))
   \<and> \<not> ok not_found_response
   \<and> read_body not_found_response = Inr (JStr ''no such item'')
   \<and> fst (safeFetch (\<lambda>k. if k = 0 then Fails (TypeError ''Failed to fetch'') else Responds not_found_response)
             ''/x'' get_options \<lparr>cfg_autoJSON = None, cfg_retries = Some 1, cfg_timeout = None\<rparr>)
       = Resolved (Some (http_error not_found_response (JStr ''no such item''))) JNull
   \<and> err_props (http_error not_found_response (JStr ''no such item''))
       = [(''status'', JNum 404), (''data'', JStr ''no such item'')]"
proof -
  let ?cfg = "\<lparr>cfg_autoJSON = None, cfg_retries = Some 1, cfg_timeout = None\<rparr>"
  let ?env = "\<lambda>k::nat. if k = 0 then Fails (TypeError ''Failed to fetch'') else Responds not_found_response"
  have a: "0 \<le> config_retries ?cfg" by (simp add: config_retries_def)
  have b: "encodes (config_autoJSON ?cfg) (opt_body get_options)"
    by (simp add: encodes_def get_options_def)
  have c: "\<And>k. k < nat (config_retries ?cfg) \<Longrightarrow> answer_fails (?env k)"
    by (simp add: config_retries_def answer_fails_def)
  have d: "?env (nat (config_retries ?cfg)) = Responds not_found_response"
    by (simp add: config_retries_def)
  have e: "\<not> ok not_found_response" by (simp add: not_found_response_def)
  have f: "read_body not_found_response = Inr (JStr ''no such item'')"
    by (simp add: read_body_def not_found_response_def startsWith_def)
  from safeFetch_http_error [of ?cfg get_options ?env not_found_response "JStr ''no such item''" "''/x''", OF a b c d e f]
  show ?thesis using a e f
    by (simp add: encodes_def answer_fails_def not_found_response_def)
qed

text \<open>
  C5 as stated fails: the error of a 404 is the plain \<open>Error\<close> with \<open>message\<close>,
  \<open>status\<close> and \<open>data\<close>, not the \<open>http\<close> variant (\<open>type\<close>, \<open>status\<close>,
  \<open>statusText\<close>, \<open>url\<close>, \<open>body\<close>) that \<open>normalizeError\<close> builds from a
  \<open>Response\<close>; \<open>safeFetch\<close> never calls \<open>normalizeError\<close>, which would file this
  error under its \<open>js\<close> variant.
\<close>

theorem safeFetch_http_failure_is_plain_Error:
  "fst (safeFetch (\<lambda>k. Responds not_found_response) ''/x'' get_options no_config)
     = Resolved (Some (JsError ''Error'' ''HTTP 404: Not Found''
                        [(''status'', JNum 404), (''data'', JStr ''no such item'')])) JNull
   \<and> error_keys (JsError ''Error'' ''HTTP 404: Not Found''
                        [(''status'', JNum 404), (''data'', JStr ''no such item'')])
       = [''message'', ''status'', ''data'']
   \<and> normalized_keys (normalizeError (ThrownResponse not_found_response))
       = [''type'', ''status'', ''statusText'', ''url'', ''body'']
   \<and> normalizeError (ThrownError (JsError ''Error'' ''HTTP 404: Not Found''
                        [(''status'', JNum 404), (''data'', JStr ''no such item'')]))
       = NJs ''HTTP 404: Not Found''
           (EngineStack (JsError ''Error'' ''HTTP 404: Not Found''
                          [(''status'', JNum 404), (''data'', JStr ''no such item'')]))"
  by (simp add: eval_defs not_found_response_def get_options_def no_config_def error_keys_def normalizeError_def)

subsection \<open>The header builder\<close>

lemma lower_ct: "toLowerCase ''Content-Type'' = ''content-type''"
  by code_simp

lemma lower_auth: "toLowerCase ''Authorization'' = ''authorization''"
  by code_simp

lemma norm_json: "normalize_value ''application/json'' = ''application/json''"
  by code_simp

lemma set_ct: "Headers_set h ''Content-Type'' ''application/json'' = Inr (AList.update ''content-type'' ''application/json'' h)"
proof -
  have "valid_header_name ''Content-Type''" by code_simp
  moreover have "valid_header_value ''application/json''" by code_simp
  ultimately show ?thesis by (simp add: Headers_set_def lower_ct norm_json)
qed

lemma set_auth:
  "Headers_set h ''Authorization'' v = Inr h' \<Longrightarrow>
     map_of h' = (map_of h)(''authorization'' \<mapsto> normalize_value v)"
  by (auto simp: Headers_set_def lower_auth update_conv' split: if_splits)

lemma set_entries_get:
  "set_entries es h = Inr h' \<Longrightarrow>
     map_of h' n =
       (case map_of (rev (map (\<lambda>p. (toLowerCase (fst p), normalize_value (snd p))) es)) n of
          Some v \<Rightarrow> Some v
        | None \<Rightarrow> map_of h n)"
proof (induction es arbitrary: h)
  case Nil
  then show ?case by simp
next
  case (Cons p es)
  obtain k v where p: "p = (k, v)" by (cases p)
  from Cons.prems p obtain h1 where h1: "Headers_set h k v = Inr h1" and r: "set_entries es h1 = Inr h'"
    by (auto split: sum.splits)
  from h1 have m: "map_of h1 = (map_of h)(toLowerCase k \<mapsto> normalize_value v)"
    by (auto simp: Headers_set_def update_conv' split: if_splits)
  from Cons.IH [OF r] m p show ?case
    by (auto simp: map_add_def split: option.splits)
qed

lemma last_extra_None:
  "last_extra es name = None \<Longrightarrow> toLowerCase k = toLowerCase name \<Longrightarrow> map_of es k = None"
proof -
  assume a: "last_extra es name = None" and b: "toLowerCase k = toLowerCase name"
  show "map_of es k = None"
  proof (rule ccontr)
    assume "map_of es k \<noteq> None"
    then obtain v where "(k, v) \<in> set es" by (auto dest: map_of_SomeD)
    then have "toLowerCase k \<in> fst ` set (rev (map (\<lambda>p. (toLowerCase (fst p), normalize_value (snd p))) es))"
      by force
    then have "map_of (rev (map (\<lambda>p. (toLowerCase (fst p), normalize_value (snd p))) es)) (toLowerCase k) \<noteq> None"
      by (simp only: map_of_eq_None_iff not_not)
    with a b show False by (simp add: last_extra_def)
  qed
qed

text \<open>
  C8, as amended. In the header set \<open>createHeaders\<close> returns, an entry of \<open>extra\<close>
  overrides the bearer \<open>Authorization\<close> header, which stands beside the default
  \<open>Content-Type: application/json\<close> (present when \<open>isJson\<close> holds and \<open>extra\<close> names no
  content type); no other header is set.
\<close>

theorem createHeaders_precedence:
  assumes "createHeaders cfg = Inr h"
  shows "Headers_get h name =
     (case last_extra (config_extra cfg) name of
        Some v \<Rightarrow> Some v
      | None \<Rightarrow>
          if toLowerCase name = ''authorization'' then bearer cfg
          else if toLowerCase name = ''content-type'' \<and> config_isJson cfg
          then Some ''application/json''
          else None)"
proof -
  define ex where "ex = config_extra cfg"
  define h1 where "h1 = (if config_isJson cfg \<and> \<not> truthy_str (map_of ex ''Content-Type'')
                 then [(''content-type'', ''application/json'')] else [])"
  define r2 where "r2 = (case token cfg of
                       None \<Rightarrow> Inr h1
                     | Some t \<Rightarrow>
                         if t \<noteq> [] then Headers_set h1 ''Authorization'' (''Bearer '' @ t)
                         else Inr h1)"
  have "createHeaders cfg = (case r2 of Inl e \<Rightarrow> Inl e | Inr h2 \<Rightarrow> set_entries ex h2)"
    unfolding createHeaders_def Let_def h1_def ex_def r2_def
    by (cases "config_isJson cfg \<and> \<not> truthy_str (map_of (config_extra cfg) ''Content-Type'')")
       (auto simp: set_ct)
  with assms obtain h2 where h2: "r2 = Inr h2" and h: "set_entries ex h2 = Inr h"
    by (auto split: sum.splits)
  have m2: "map_of h2 = (case bearer cfg of
                           None \<Rightarrow> map_of h1
                         | Some b \<Rightarrow> (map_of h1)(''authorization'' \<mapsto> b))"
    using h2 set_auth [of h1 _ h2]
    by (auto simp: r2_def bearer_def split: option.splits if_splits)
  note g = set_entries_get [OF h, of "toLowerCase name"]
  show ?thesis
  proof (cases "last_extra ex name")
    case (Some v)
    with g show ?thesis by (simp add: Headers_get_def last_extra_def ex_def)
  next
    case None
    then have noct: "toLowerCase name = ''content-type'' \<Longrightarrow> map_of ex ''Content-Type'' = None"
      using last_extra_None [of ex name "''Content-Type''"] by (simp add: lower_ct)
    from None g have "Headers_get h name = map_of h2 (toLowerCase name)"
      by (simp add: Headers_get_def last_extra_def)
    with None noct show ?thesis
      by (auto simp: m2 h1_def ex_def truthy_str_def split: option.splits)
  qed
qed

text \<open>
  The theorem where \<open>extra\<close> replaces the bearer header and leaves the content type.
\<close>

theorem createHeaders_precedence_witness:
  "createHeaders \<lparr>isJson = None, token = Some ''abc'',
                   extra = Some [(''authorization'', ''Basic xyz''), (''X-Client'', ''my-app'')]\<rparr>
     = Inr [(''content-type'', ''application/json''), (''authorization'', ''Basic xyz''), (''x-client'', ''my-app'')]
   \<and> Headers_get [(''content-type'', ''application/json''), (''authorization'', ''Basic xyz''), (''x-client'', ''my-app'')]
         ''Authorization'' = Some ''Basic xyz''
   \<and> Headers_get [(''content-type'', ''application/json''), (''authorization'', ''Basic xyz''), (''x-client'', ''my-app'')]
         ''Content-Type'' = Some ''application/json''"
proof -
  let ?cfg = "\<lparr>isJson = None, token = Some ''abc'',
                   extra = Some [(''authorization'', ''Basic xyz''), (''X-Client'', ''my-app'')]\<rparr>"
  let ?h = "[(''content-type'', ''application/json''), (''authorization'', ''Basic xyz''), (''x-client'', ''my-app'')]"
  have h: "createHeaders ?cfg = Inr ?h" by code_simp
  have a: "last_extra (config_extra ?cfg) ''Authorization'' = Some ''Basic xyz''" by code_simp
  have b: "last_extra (config_extra ?cfg) ''Content-Type'' = None" by code_simp
  have c: "config_isJson ?cfg" by code_simp
  from createHeaders_precedence [OF h, of "''Authorization''"] createHeaders_precedence [OF h, of "''Content-Type''"]
  show ?thesis using h a b c by (simp add: lower_ct)
qed

text \<open>
  C8 as stated fails: \<open>createHeaders\<close> has no CSRF parameter and sets no \<open>Accept\<close>
  default.
\<close>

theorem createHeaders_no_Accept_no_CSRF:
  "createHeaders \<lparr>isJson = None, token = Some ''abc'', extra = None\<rparr>
     = Inr [(''content-type'', ''application/json''), (''authorization'', ''Bearer abc'')]
   \<and> Headers_get [(''content-type'', ''application/json''), (''authorization'', ''Bearer abc'')] ''Accept'' = None
   \<and> Headers_get [(''content-type'', ''application/json''), (''authorization'', ''Bearer abc'')] ''X-CSRFToken'' = None"
  by code_simp

subsection \<open>The CSRF token\<close>

text \<open>
  C9. The resolver tries the form field, then the meta tag, then the cookie
  \<open>csrftoken\<close>. A token it finds is cached: the next call returns the same string
  without touching the page, whatever the page holds by then, so with a form-field token
  two calls make one lookup. A failed resolution caches nothing and the next call tries
  all sources again.
\<close>

theorem getCSRFToken_cached_resolution:
  "(\<not> truthy_str (cachedToken st) \<longrightarrow> fst (getCSRFToken d st) = resolve_spec d)
   \<and> (fst (getCSRFToken d st) = Some t \<longrightarrow>
        getCSRFToken d' (snd (getCSRFToken d st)) = (Some t, snd (getCSRFToken d st)))
   \<and> (\<not> truthy_str (cachedToken st) \<and> truthy_str (csrf_input d) \<longrightarrow>
        fst (getCSRFToken d st) = csrf_input d
        \<and> lookups (snd (getCSRFToken d' (snd (getCSRFToken d st)))) = lookups st @ [QueryInput])
   \<and> (\<not> truthy_str (cachedToken st) \<and> resolve_spec d = None \<longrightarrow>
        fst (getCSRFToken d st) = None
        \<and> cachedToken (snd (getCSRFToken d st)) = cachedToken st
        \<and> lookups (snd (getCSRFToken d st)) = lookups st @ [QueryInput, QueryMeta, ReadCookie]
        \<and> fst (getCSRFToken d' (snd (getCSRFToken d st))) = resolve_spec d')"
  by (auto simp: getCSRFToken_def resolve_spec_def Let_def truthy_str_def split: option.splits if_splits)

text \<open>
  The theorem on a page with a form field, followed by a page without any token; and on
  a page without a token, followed by a page with the cookie.
\<close>

theorem getCSRFToken_cached_resolution_witness:
  "fst (getCSRFToken page_with_input csrf_initial) = Some ''tok123''
   \<and> getCSRFToken page_without_token (snd (getCSRFToken page_with_input csrf_initial))
       = (Some ''tok123'', \<lparr>cachedToken = Some ''tok123'', lookups = [QueryInput]\<rparr>)
   \<and> fst (getCSRFToken page_without_token csrf_initial) = None
   \<and> fst (getCSRFToken page_with_cookie (snd (getCSRFToken page_without_token csrf_initial))) = Some ''abc''
   \<and> lookups (snd (getCSRFToken page_with_cookie (snd (getCSRFToken page_without_token csrf_initial))))
       = [QueryInput, QueryMeta, ReadCookie, QueryInput, QueryMeta, ReadCookie]"
proof -
  have c0: "\<not> truthy_str (cachedToken csrf_initial)" by (simp add: csrf_initial_def truthy_str_def)
  have i: "truthy_str (csrf_input page_with_input)" by (simp add: page_with_input_def truthy_str_def)
  have r1: "resolve_spec page_with_input = Some ''tok123''" by code_simp
  have r2: "resolve_spec page_without_token = None" by code_simp
  have r3: "resolve_spec page_with_cookie = Some ''abc''" by code_simp
  have s1: "snd (getCSRFToken page_with_input csrf_initial) = \<lparr>cachedToken = Some ''tok123'', lookups = [QueryInput]\<rparr>"
    by code_simp
  have s2: "lookups (snd (getCSRFToken page_with_cookie (snd (getCSRFToken page_without_token csrf_initial))))
       = [QueryInput, QueryMeta, ReadCookie, QueryInput, QueryMeta, ReadCookie]"
    by code_simp
  note a = getCSRFToken_cached_resolution [of csrf_initial page_with_input "''tok123''" page_without_token]
  note b = getCSRFToken_cached_resolution [of csrf_initial page_without_token "''x''" page_with_cookie]
  from a c0 r1 have a1: "fst (getCSRFToken page_with_input csrf_initial) = Some ''tok123''" by simp
  with a have a2: "getCSRFToken page_without_token (snd (getCSRFToken page_with_input csrf_initial))
       = (Some ''tok123'', snd (getCSRFToken page_with_input csrf_initial))" by blast
  from b c0 r2 have b1: "fst (getCSRFToken page_without_token csrf_initial) = None"
    and b2: "fst (getCSRFToken page_with_cookie (snd (getCSRFToken page_without_token csrf_initial))) = resolve_spec page_with_cookie"
    by blast+
  show ?thesis using a1 a2 b1 b2 r3 s1 s2 by simp
qed

text \<open>
  C10, as amended. \<open>fetchWithCSRF\<close> is \<open>safeFetch\<close> on the options with the
  headers replaced and the method defaulted to \<open>POST\<close>, under the configuration
  \<open>{ autoJSON: true }\<close> alone. So the call makes at most one transport attempt and
  schedules no timeout; when the body passes the encoding step it makes exactly one
  attempt, with the method of \<open>options\<close> or \<open>POST\<close> and a signal that is not
  aborted, and only a transport that stays silent leaves the call pending.
\<close>

theorem fetchWithCSRF_single_attempt:
  assumes "fetchWithCSRF env d cst url opts0 = ((out, st), cst')"
  shows "(\<exists>headers.
            safeFetch env url
              (opts0\<lparr>opt_headers := Some headers, opt_method := Some (or_else (opt_method opts0) ''POST'')\<rparr>)
              \<lparr>cfg_autoJSON = Some True, cfg_retries = None, cfg_timeout = None\<rparr> = (out, st))
       \<and> length (calls st) \<le> 1 \<and> \<not> timer_pending st \<and> \<not> aborted st
       \<and> (encodes True (opt_body opts0) \<longrightarrow>
             map req_method (calls st)
               = [Some (or_else (opt_method opts0) ''POST'')]
             \<and> map signal_aborted (calls st) = [False]
             \<and> (out = Pending) = (env 0 = Silent))"
proof -
  let ?cfg = "\<lparr>cfg_autoJSON = Some True, cfg_retries = None, cfg_timeout = None\<rparr>"
  obtain tok cst1 where g: "getCSRFToken d cst = (tok, cst1)" by (cases "getCSRFToken d cst")
  define opts1 where "opts1 = opts0\<lparr>opt_headers := Some (spread [(''X-CSRFToken'', case tok of None \<Rightarrow> JNull | Some t \<Rightarrow> JStr t)]
                      (case opt_headers opts0 of None \<Rightarrow> [] | Some h \<Rightarrow> h)),
                   opt_method := Some (or_else (opt_method opts0) ''POST'')\<rparr>"
  from assms g have s: "safeFetch env url opts1 ?cfg = (out, st)"
    by (simp add: fetchWithCSRF_def opts1_def)
  have cfg: "config_autoJSON ?cfg = True" "config_retries ?cfg = 0" "config_timeout ?cfg = 0"
    by (simp_all add: config_autoJSON_def config_retries_def config_timeout_def)
  have body: "opt_body opts1 = opt_body opts0" by (simp add: opts1_def)
  have del: "\<exists>headers.
            safeFetch env url
              (opts0\<lparr>opt_headers := Some headers, opt_method := Some (or_else (opt_method opts0) ''POST'')\<rparr>)
              ?cfg = (out, st)"
    using s unfolding opts1_def by blast
  show ?thesis
  proof (cases "encodes True (opt_body opts0)")
    case True
    then have "encodes (config_autoJSON ?cfg) (opt_body opts1)" by (simp add: cfg body)
    from safeFetch_encodes [OF this, of env url] s
    have "attempt_loop env (encoded_request url opts1 ?cfg) 0 0
            \<lparr>aborted = False, timer_pending = False, calls = []\<rparr> = (out, st)"
      by (simp add: cfg)
    from loop_once [OF this] True have
      "length (calls st) \<le> 1 \<and> \<not> timer_pending st \<and> \<not> aborted st
       \<and> map req_method (calls st) = [Some (or_else (opt_method opts0) ''POST'')]
       \<and> map signal_aborted (calls st) = [False]
       \<and> (out = Pending) = (env 0 = Silent)"
      by (simp add: encoded_request_method opts1_def)
    with del show ?thesis by blast
  next
    case False
    then have "\<not> encodes (config_autoJSON ?cfg) (opt_body opts1)" by (simp add: cfg body)
    from safeFetch_not_encodes [OF this, of env url] s
    have "length (calls st) \<le> 1 \<and> \<not> timer_pending st \<and> \<not> aborted st"
      by (auto simp: cfg)
    with del False show ?thesis by blast
  qed
qed

text \<open>
  The theorem for a JSON body and no method.
\<close>

theorem fetchWithCSRF_single_attempt_witness:
  "fetchWithCSRF (\<lambda>k. Responds ok_json_response) page_with_input csrf_initial ''/api/items''
          \<lparr>opt_method = None, opt_headers = None, opt_body = JObj [(''name'', JStr ''Test'')]\<rparr>
     = ((Resolved None (JObj [(''ok'', JBool True)]),
         \<lparr>aborted = False, timer_pending = False,
          calls = [\<lparr>req_url = ''/api/items'', req_method = Some ''POST'',
                    req_headers = [(''Accept'', JStr ''application/json''), (''X-CSRFToken'', JStr ''tok123''),
                                   (''Content-Type'', JStr ''application/json'')],
                    req_body = JsonText (JObj [(''name'', JStr ''Test'')]), signal_aborted = False\<rparr>]\<rparr>),
        \<lparr>cachedToken = Some ''tok123'', lookups = [QueryInput]\<rparr>)
   \<and> encodes True (JObj [(''name'', JStr ''Test'')])
   \<and> map req_method [\<lparr>req_url = ''/api/items'', req_method = Some ''POST'',
                    req_headers = [(''Accept'', JStr ''application/json''), (''X-CSRFToken'', JStr ''tok123''),
                                   (''Content-Type'', JStr ''application/json'')],
                    req_body = JsonText (JObj [(''name'', JStr ''Test'')]), signal_aborted = False\<rparr>] = [Some ''POST'']"
proof -
  have h: "fetchWithCSRF (\<lambda>k. Responds ok_json_response) page_with_input csrf_initial ''/api/items''
          \<lparr>opt_method = None, opt_headers = None, opt_body = JObj [(''name'', JStr ''Test'')]\<rparr>
     = ((Resolved None (JObj [(''ok'', JBool True)]),
         \<lparr>aborted = False, timer_pending = False,
          calls = [\<lparr>req_url = ''/api/items'', req_method = Some ''POST'',
                    req_headers = [(''Accept'', JStr ''application/json''), (''X-CSRFToken'', JStr ''tok123''),
                                   (''Content-Type'', JStr ''application/json'')],
                    req_body = JsonText (JObj [(''name'', JStr ''Test'')]), signal_aborted = False\<rparr>]\<rparr>),
        \<lparr>cachedToken = Some ''tok123'', lookups = [QueryInput]\<rparr>)"
    by (simp add: fetchWithCSRF_def getCSRFToken_def csrf_initial_def page_with_input_def truthy_str_def or_else_def eval_defs ok_json_response_def)
  have e: "encodes True (JObj [(''name'', JStr ''Test'')])" by (simp add: encodes_def)
  from fetchWithCSRF_single_attempt [OF h] e
  have "map req_method (calls \<lparr>aborted = False, timer_pending = False,
          calls = [\<lparr>req_url = ''/api/items'', req_method = Some ''POST'',
                    req_headers = [(''Accept'', JStr ''application/json''), (''X-CSRFToken'', JStr ''tok123''),
                                   (''Content-Type'', JStr ''application/json'')],
                    req_body = JsonText (JObj [(''name'', JStr ''Test'')]), signal_aborted = False\<rparr>]\<rparr>)
        = [Some (or_else None ''POST'')]"
    by simp
  then show ?thesis using h e by (simp add: or_else_def)
qed

text \<open>
  C10 as stated fails: for a body that \<open>JSON.stringify\<close> refuses, the call makes no
  transport attempt.
\<close>

theorem fetchWithCSRF_unserializable_body_no_attempt:
  "fst (fetchWithCSRF (\<lambda>k. Responds ok_json_response) page_with_input csrf_initial ''/api/items''
          \<lparr>opt_method = None, opt_headers = None, opt_body = JObj [(''id'', JBigInt 1)]\<rparr>)
     = (Rejected (TypeError ''Do not know how to serialize a BigInt''),
        \<lparr>aborted = False, timer_pending = False, calls = []\<rparr>)"
  by (simp add: fetchWithCSRF_def getCSRFToken_def csrf_initial_def page_with_input_def truthy_str_def or_else_def eval_defs ok_json_response_def)

end
